theory Spec2Isabelle
  imports Main "HOL-Library.Multiset"
begin

section \<open>Data model of the Reader component\<close>

text \<open>
  The source is one React component, \<^verbatim>\<open>Reader\<close> in \<^verbatim>\<open>src/components/reader.tsx\<close>.
  Its interfaces \<^verbatim>\<open>Chapter\<close>, \<^verbatim>\<open>Bookmark\<close> and \<^verbatim>\<open>Highlight\<close> are elided there
  (\<^verbatim>\<open>// ... (previous interfaces remain the same)\<close>), so the four records below are
  taken from the data model of the specification and from the fields the component
  reads and writes. Indices are JavaScript numbers that only ever hold integers here;
  they are modelled as \<^typ>\<open>int\<close>, so that the value \<open>-1\<close> the code can compute is a
  value of the model as well.
\<close>

text \<open>Modelled from the spec: the interface \<^verbatim>\<open>Verse\<close>, \<^verbatim>\<open>{ text: string }\<close>. Its field
  is \<open>verse_text\<close> here, since \<open>text\<close> is a keyword of Isabelle.\<close>

record Verse =
  verse_text :: string

text \<open>Modelled from the spec: the interface \<^verbatim>\<open>Chapter\<close>,
  \<^verbatim>\<open>{ name: string, verses: ordered sequence of Verse }\<close>.\<close>

record Chapter =
  name :: string
  verses :: "Verse list"

text \<open>Modelled from the spec: the interface \<^verbatim>\<open>Bookmark\<close>, a (chapter, verse) pair. Line
  80 names its fields \<^verbatim>\<open>chapter\<close> and \<^verbatim>\<open>verse\<close>; they are prefixed here, since \<open>chapter\<close>
  is a keyword of Isabelle.\<close>

record Bookmark =
  bm_chapter :: int
  bm_verse :: int

text \<open>Modelled from the spec: the interface \<^verbatim>\<open>Highlight\<close>, a (chapter, verse, text)
  triple, with the field names of line 86, prefixed likewise.\<close>

record Highlight =
  hl_chapter :: int
  hl_verse :: int
  hl_text :: string

text \<open>The two effects of the component beside its state: calls of \<^verbatim>\<open>toast.success\<close> and
  \<^verbatim>\<open>toast.error\<close>, and calls of \<^verbatim>\<open>console.error\<close>. Both are kept as logs in the state.\<close>

datatype toast = ToastSuccess string | ToastError string

text \<open>What an \<^verbatim>\<open>await\<close> of \<^verbatim>\<open>fetchChapters\<close> can throw: \<^verbatim>\<open>fetch\<close> rejects on a network
  failure, \<^verbatim>\<open>response.json()\<close> rejects on a body that does not parse.\<close>

datatype error = NetworkError string | ParseError string

text \<open>The seven \<^verbatim>\<open>useState\<close> cells of lines 17 to 23, and the two effect logs.\<close>

record reader =
  chapters :: "Chapter list"
  currentChapter :: int
  currentVerse :: int
  fontSize :: int
  bookmarks :: "Bookmark list"
  highlights :: "Highlight list"
  isLoading :: bool
  toasts :: "toast list"
  console :: "(string \<times> error) list"

text \<open>The initial values of the \<^verbatim>\<open>useState\<close> calls.\<close>

definition initial :: reader where
  "initial = \<lparr>chapters = [], currentChapter = 0, currentVerse = 0, fontSize = 16,
     bookmarks = [], highlights = [], isLoading = True, toasts = [], console = []\<rparr>"

section \<open>JavaScript primitives the component uses\<close>

text \<open>\<^verbatim>\<open>xs[i]\<close>: reading an array at a number. Outside \<open>0 \<le> i < xs.length\<close> the result is
  \<^verbatim>\<open>undefined\<close>, here \<open>None\<close>.\<close>

definition js_index :: "'a list \<Rightarrow> int \<Rightarrow> 'a option" where
  "js_index xs i = (if 0 \<le> i \<and> i < int (length xs) then Some (xs ! nat i) else None)"

text \<open>\<^verbatim>\<open>a ?? d\<close>: the nullish coalescing operator.\<close>

definition nullish :: "'a option \<Rightarrow> 'a \<Rightarrow> 'a" where
  "nullish a d = (case a of None \<Rightarrow> d | Some x \<Rightarrow> x)"

text \<open>\<^verbatim>\<open>chapters[i]?.verses?.length\<close>: \<^verbatim>\<open>undefined\<close> when \<^verbatim>\<open>chapters[i]\<close> is.\<close>

definition verses_length :: "Chapter list \<Rightarrow> int \<Rightarrow> int option" where
  "verses_length chs i = map_option (\<lambda>ch. int (length (verses ch))) (js_index chs i)"

text \<open>\<^verbatim>\<open>xs.findIndex(p)\<close>: the index of the first element satisfying \<open>p\<close>, or \<open>-1\<close>.\<close>

fun findIndex :: "('a \<Rightarrow> bool) \<Rightarrow> 'a list \<Rightarrow> int" where
  "findIndex p [] = - 1"
| "findIndex p (x # xs) =
     (if p x then 0 else (let r = findIndex p xs in if r = - 1 then - 1 else r + 1))"

text \<open>\<^verbatim>\<open>xs.filter((x, index) => f(x, index))\<close>, with the index of the first element of
  \<open>xs\<close> passed along.\<close>

fun filter_from :: "int \<Rightarrow> ('a \<Rightarrow> int \<Rightarrow> bool) \<Rightarrow> 'a list \<Rightarrow> 'a list" where
  "filter_from k f [] = []"
| "filter_from k f (x # xs) =
     (if f x k then x # filter_from (k + 1) f xs else filter_from (k + 1) f xs)"

definition filter_indexed :: "('a \<Rightarrow> int \<Rightarrow> bool) \<Rightarrow> 'a list \<Rightarrow> 'a list" where
  "filter_indexed f xs = filter_from 0 f xs"

section \<open>The operations of the component\<close>

text \<open>
  Every handler is modelled as a function from the state its closure captured to the
  state after the setters it calls have taken effect. \<^verbatim>\<open>handleNextVerse\<close> and
  \<^verbatim>\<open>handlePreviousVerse\<close> list every cell they read among their \<^verbatim>\<open>useCallback\<close>
  dependencies and the other handlers are rebuilt on each render, so each call sees
  the current state. No handler has a statement that can throw: every read that could
  meet \<^verbatim>\<open>undefined\<close> goes through \<^verbatim>\<open>?.\<close>.
\<close>

subsection \<open>Loading (lines 29 to 40)\<close>

text \<open>What the network gives \<^verbatim>\<open>fetchChapters\<close>: the first \<^verbatim>\<open>await\<close> rejects or resolves
  to a response, whose \<^verbatim>\<open>json()\<close> rejects or resolves to the parsed data, typed as
  \<^verbatim>\<open>Chapter[]\<close> by \<^verbatim>\<open>setChapters\<close>.\<close>

datatype json_outcome = JsonRejected error | JsonParsed "Chapter list"

datatype fetch_outcome = FetchRejected error | FetchResolved json_outcome

text \<open>The \<^verbatim>\<open>try\<close> block, lines 31 to 34: a rejected \<^verbatim>\<open>await\<close> throws, \<open>Inl\<close>.\<close>

definition fetch_try :: "fetch_outcome \<Rightarrow> reader \<Rightarrow> error + reader" where
  "fetch_try r s =
     (case r of
        FetchRejected e \<Rightarrow> Inl e
      | FetchResolved j \<Rightarrow>
          (case j of
             JsonRejected e \<Rightarrow> Inl e
           | JsonParsed data \<Rightarrow> Inr (s\<lparr>chapters := data, isLoading := False\<rparr>)))"

text \<open>The \<^verbatim>\<open>catch\<close> block, lines 36 to 38.\<close>

definition fetch_catch :: "error \<Rightarrow> reader \<Rightarrow> reader" where
  "fetch_catch e s =
     s\<lparr>console := console s @ [(''Error fetching chapters:'', e)],
       isLoading := False,
       toasts := toasts s @
         [ToastError ''Failed to load chapters. Please try again later.'']\<rparr>"

text \<open>The whole function: the \<^verbatim>\<open>catch\<close> block handles whatever the \<^verbatim>\<open>try\<close> block
  threw, and nothing is thrown again.\<close>

definition fetchChapters :: "fetch_outcome \<Rightarrow> reader \<Rightarrow> error + reader" where
  "fetchChapters r s =
     (case fetch_try r s of
        Inr s' \<Rightarrow> Inr s'
      | Inl e \<Rightarrow> Inr (fetch_catch e s))"

subsection \<open>Navigation (lines 42 to 62)\<close>

definition handleNextVerse :: "reader \<Rightarrow> reader" where
  "handleNextVerse s =
     (if length (chapters s) = 0 then s
      else if currentVerse s < nullish (verses_length (chapters s) (currentChapter s)) 0 - 1
      then s\<lparr>currentVerse := currentVerse s + 1\<rparr>
      else if currentChapter s < int (length (chapters s)) - 1
      then s\<lparr>currentChapter := currentChapter s + 1, currentVerse := 0\<rparr>
      else s)"

definition handlePreviousVerse :: "reader \<Rightarrow> reader" where
  "handlePreviousVerse s =
     (if length (chapters s) = 0 then s
      else if currentVerse s > 0
      then s\<lparr>currentVerse := currentVerse s - 1\<rparr>
      else if currentChapter s > 0
      then s\<lparr>currentChapter := currentChapter s - 1,
             currentVerse :=
               nullish (verses_length (chapters s) (currentChapter s - 1)) 1 - 1\<rparr>
      else s)"

subsection \<open>Bookmarks and highlights (lines 71 to 88, 121 to 124)\<close>

definition toggleBookmark :: "reader \<Rightarrow> reader" where
  "toggleBookmark s =
     (let existingBookmarkIndex =
            findIndex (\<lambda>b. bm_chapter b = currentChapter s \<and> bm_verse b = currentVerse s)
              (bookmarks s)
      in if existingBookmarkIndex \<noteq> - 1
         then s\<lparr>bookmarks :=
                  filter_indexed (\<lambda>_ index. index \<noteq> existingBookmarkIndex) (bookmarks s),
                toasts := toasts s @ [ToastSuccess ''Bookmark removed'']\<rparr>
         else s\<lparr>bookmarks :=
                  bookmarks s @ [\<lparr>bm_chapter = currentChapter s, bm_verse = currentVerse s\<rparr>],
                toasts := toasts s @ [ToastSuccess ''Bookmark added'']\<rparr>)"

definition addHighlight :: "string \<Rightarrow> reader \<Rightarrow> reader" where
  "addHighlight t s =
     s\<lparr>highlights :=
         highlights s @
           [\<lparr>hl_chapter = currentChapter s, hl_verse = currentVerse s, hl_text = t\<rparr>],
       toasts := toasts s @ [ToastSuccess ''Highlight added'']\<rparr>"

text \<open>The \<^verbatim>\<open>onClick\<close> of the button rendered for \<^verbatim>\<open>bookmarks[i]\<close>, lines 121 to 124. The
  list is rendered with one button per entry, so an index beyond the list has no button
  and nothing happens.\<close>

definition jumpToBookmark :: "nat \<Rightarrow> reader \<Rightarrow> reader" where
  "jumpToBookmark i s =
     (if i < length (bookmarks s)
      then s\<lparr>currentChapter := bm_chapter (bookmarks s ! i),
             currentVerse := bm_verse (bookmarks s ! i)\<rparr>
      else s)"

text \<open>The slider, line 196.\<close>

definition changeFontSize :: "int \<Rightarrow> reader \<Rightarrow> reader" where
  "changeFontSize v s = s\<lparr>fontSize := v\<rparr>"

subsection \<open>What the main area renders (lines 90, 91 and 150 to 175)\<close>

datatype view = Loading | VerseView int string string int | NoContent

definition currentChapterData :: "reader \<Rightarrow> Chapter option" where
  "currentChapterData s = js_index (chapters s) (currentChapter s)"

definition currentVerseData :: "reader \<Rightarrow> Verse option" where
  "currentVerseData s =
     (case currentChapterData s of
        None \<Rightarrow> None
      | Some ch \<Rightarrow> js_index (verses ch) (currentVerse s))"

definition render_main :: "reader \<Rightarrow> view" where
  "render_main s =
     (if isLoading s then Loading
      else if length (chapters s) > 0
      then (case (currentChapterData s, currentVerseData s) of
              (Some ch, Some v) \<Rightarrow>
                VerseView (currentChapter s + 1) (name ch) (verse_text v) (fontSize s)
            | _ \<Rightarrow> NoContent)
      else NoContent)"

subsection \<open>Sequences of operations\<close>

text \<open>The operations a user can trigger on the cursor and the annotation lists.\<close>

datatype operation =
    Advance
  | Retreat
  | ToggleBookmark
  | AddHighlight string
  | JumpToBookmark nat

fun apply_op :: "reader \<Rightarrow> operation \<Rightarrow> reader" where
  "apply_op s Advance = handleNextVerse s"
| "apply_op s Retreat = handlePreviousVerse s"
| "apply_op s ToggleBookmark = toggleBookmark s"
| "apply_op s (AddHighlight t) = addHighlight t s"
| "apply_op s (JumpToBookmark i) = jumpToBookmark i s"

definition run_ops :: "reader \<Rightarrow> operation list \<Rightarrow> reader" where
  "run_ops s ops = foldl apply_op s ops"

text \<open>Everything that can happen to the component: the completion of the fetch started
  at mount, a user operation, a move of the slider.\<close>

datatype event = Fetched fetch_outcome | User operation | Slider int

fun step :: "reader \<Rightarrow> event \<Rightarrow> reader" where
  "step s (Fetched r) = (case fetchChapters r s of Inr s' \<Rightarrow> s' | Inl _ \<Rightarrow> s)"
| "step s (User op) = apply_op s op"
| "step s (Slider v) = changeFontSize v s"

definition run :: "reader \<Rightarrow> event list \<Rightarrow> reader" where
  "run s evs = foldl step s evs"

section \<open>Predicates of the specification\<close>

text \<open>The cursor invariant of the data model: both indices are in range.\<close>

definition position_valid :: "Chapter list \<Rightarrow> int \<Rightarrow> int \<Rightarrow> bool" where
  "position_valid chs c v =
     (0 \<le> c \<and> c < int (length chs) \<and> 0 \<le> v \<and> v < int (length (verses (chs ! nat c))))"

definition cursor_valid :: "reader \<Rightarrow> bool" where
  "cursor_valid s = position_valid (chapters s) (currentChapter s) (currentVerse s)"

definition bookmarks_valid :: "reader \<Rightarrow> bool" where
  "bookmarks_valid s =
     list_all (\<lambda>b. position_valid (chapters s) (bm_chapter b) (bm_verse b)) (bookmarks s)"

text \<open>The position the cursor is at, as a bookmark.\<close>

definition cursor :: "reader \<Rightarrow> Bookmark" where
  "cursor s = \<lparr>bm_chapter = currentChapter s, bm_verse = currentVerse s\<rparr>"

text \<open>The number of verses of a chapter list.\<close>

definition total_verses :: "Chapter list \<Rightarrow> nat" where
  "total_verses chs = sum_list (map (\<lambda>ch. length (verses ch)) chs)"

text \<open>The chapter list of the scenario in the specification.\<close>

definition scenario :: "Chapter list" where
  "scenario =
     [\<lparr>name = ''Ch1'', verses = [\<lparr>verse_text = ''v1''\<rparr>, \<lparr>verse_text = ''v2''\<rparr>]\<rparr>,
      \<lparr>name = ''Ch2'', verses = [\<lparr>verse_text = ''v3''\<rparr>]\<rparr>]"

text \<open>A chapter list with a chapter that has no verse.\<close>

definition gapped :: "Chapter list" where
  "gapped =
     [\<lparr>name = ''Ch1'', verses = [\<lparr>verse_text = ''v1''\<rparr>]\<rparr>,
      \<lparr>name = ''Ch2'', verses = []\<rparr>,
      \<lparr>name = ''Ch3'', verses = [\<lparr>verse_text = ''v2''\<rparr>]\<rparr>]"

text \<open>The component once the fetch started at mount has delivered a chapter list.\<close>

definition loaded :: "Chapter list \<Rightarrow> reader" where
  "loaded chs = step initial (Fetched (FetchResolved (JsonParsed chs)))"

section \<open>Auxiliary facts\<close>

lemmas nav_defs =
  handleNextVerse_def handlePreviousVerse_def nullish_def verses_length_def js_index_def

lemma loaded_eq:
  "loaded chs = initial\<lparr>chapters := chs, isLoading := False\<rparr>"
  by (simp add: loaded_def fetchChapters_def fetch_try_def)

lemmas concrete_defs = loaded_eq initial_def scenario_def

lemma funpow_fixed: "f x = x \<Longrightarrow> (f ^^ k) x = x"
  by (induction k) simp_all

lemma findIndex_ge: "- 1 \<le> findIndex p xs"
  by (induction xs) (auto simp: Let_def)

lemma findIndex_none: "findIndex p xs = - 1 \<longleftrightarrow> (\<forall>x \<in> set xs. \<not> p x)"
proof (induction xs)
  case Nil
  show ?case by simp
next
  case (Cons x xs)
  have "findIndex p xs + 1 \<noteq> - 1" using findIndex_ge [of p xs] by arith
  with Cons show ?case by (auto simp: Let_def)
qed

lemma filter_from_below: "j < k \<Longrightarrow> filter_from k (\<lambda>_ i. i \<noteq> j) xs = xs"
  by (induction xs arbitrary: k) auto

lemma filter_from_remove_first:
  assumes "\<And>b. p b = (b = a)"
  shows "findIndex p xs \<noteq> - 1 \<Longrightarrow> j = k + findIndex p xs \<Longrightarrow>
         filter_from k (\<lambda>_ i. i \<noteq> j) xs = remove1 a xs"
proof (induction xs arbitrary: k)
  case Nil
  then show ?case by simp
next
  case (Cons x xs)
  show ?case
  proof (cases "p x")
    case True
    then have "x = a" using assms by simp
    with True Cons.prems show ?thesis by (simp add: filter_from_below)
  next
    case False
    then have xa: "x \<noteq> a" using assms by simp
    from False Cons.prems have ne: "findIndex p xs \<noteq> - 1"
      by (auto simp: Let_def split: if_splits)
    have ge: "0 \<le> findIndex p xs" using ne findIndex_ge[of p xs] by arith
    from False ne Cons.prems have j: "j = k + 1 + findIndex p xs"
      by (simp add: Let_def)
    from j ge have "j \<noteq> k" by arith
    with Cons.IH[OF ne j] xa show ?thesis
      by simp
  qed
qed

lemma is_cursor: "(bm_chapter b = currentChapter s \<and> bm_verse b = currentVerse s) = (b = cursor s)"
  by (cases b) (auto simp: cursor_def)

lemma toggle_present:
  "cursor s \<in> set (bookmarks s) \<Longrightarrow> bookmarks (toggleBookmark s) = remove1 (cursor s) (bookmarks s)"
  using filter_from_remove_first[of "\<lambda>b. bm_chapter b = currentChapter s \<and> bm_verse b = currentVerse s" "cursor s" "bookmarks s" _ 0]
  by (simp add: toggleBookmark_def Let_def filter_indexed_def findIndex_none is_cursor)

lemma toggle_absent:
  "cursor s \<notin> set (bookmarks s) \<Longrightarrow> bookmarks (toggleBookmark s) = bookmarks s @ [cursor s]"
  by (simp add: toggleBookmark_def Let_def findIndex_none is_cursor cursor_def)

lemma toggle_cursor: "cursor (toggleBookmark s) = cursor s"
  by (simp add: toggleBookmark_def Let_def cursor_def)

lemma toggle_distinct: "distinct (bookmarks s) \<Longrightarrow> distinct (bookmarks (toggleBookmark s))"
  by (cases "cursor s \<in> set (bookmarks s)") (simp_all add: toggle_present toggle_absent)

lemma step_distinct: "distinct (bookmarks s) \<Longrightarrow> distinct (bookmarks (step s ev))"
proof (cases ev)
  case (Fetched r)
  assume "distinct (bookmarks s)"
  then show ?thesis using Fetched
    by (simp add: fetchChapters_def fetch_try_def fetch_catch_def
        split: fetch_outcome.split json_outcome.split)
next
  case (User op)
  assume "distinct (bookmarks s)"
  then show ?thesis using User
    by (cases op)
      (simp_all add: toggle_distinct handleNextVerse_def handlePreviousVerse_def
        addHighlight_def jumpToBookmark_def)
next
  case (Slider v)
  assume "distinct (bookmarks s)"
  then show ?thesis using Slider by (simp add: changeFontSize_def)
qed

lemma run_distinct: "distinct (bookmarks s) \<Longrightarrow> distinct (bookmarks (run s evs))"
  unfolding run_def by (induction evs arbitrary: s) (simp_all add: step_distinct)

subsection \<open>Counting verses along the cursor's way\<close>

lemma total_verses_append: "total_verses (xs @ ys) = total_verses xs + total_verses ys"
  by (simp add: total_verses_def)

lemma total_verses_Cons: "total_verses (x # xs) = length (verses x) + total_verses xs"
  by (simp add: total_verses_def)

lemma total_verses_split:
  "c < length chs \<Longrightarrow>
   total_verses chs =
     total_verses (take c chs) + length (verses (chs ! c)) + total_verses (drop (Suc c) chs)"
  using id_take_nth_drop [of c chs] total_verses_append [of "take c chs" "chs ! c # drop (Suc c) chs"]
  by (simp add: total_verses_Cons)

lemma total_verses_take_Suc:
  "c < length chs \<Longrightarrow>
   total_verses (take (Suc c) chs) = total_verses (take c chs) + length (verses (chs ! c))"
  by (simp add: take_Suc_conv_app_nth total_verses_append total_verses_Cons total_verses_def)

lemma total_verses_zero:
  "\<forall>ch \<in> set chs. verses ch \<noteq> [] \<Longrightarrow> total_verses chs = 0 \<Longrightarrow> chs = []"
  by (cases chs) (simp_all add: total_verses_Cons)

lemma advance_offset:
  assumes ne: "\<forall>ch \<in> set (chapters s). verses ch \<noteq> []"
    and c: "currentChapter s = int c" "c < length (chapters s)"
    and v: "currentVerse s = int v" "v < length (verses (chapters s ! c))"
    and more: "total_verses (take c (chapters s)) + v + 1 < total_verses (chapters s)"
  shows "\<exists>c' v'. handleNextVerse s = s\<lparr>currentChapter := int c', currentVerse := int v'\<rparr> \<and>
           c' < length (chapters s) \<and> v' < length (verses (chapters s ! c')) \<and>
           total_verses (take c' (chapters s)) + v' = total_verses (take c (chapters s)) + v + 1"
proof -
  from c have nonempty: "chapters s \<noteq> []" by auto
  show ?thesis
  proof (cases "v + 1 < length (verses (chapters s ! c))")
  case True
  with nonempty c v have "handleNextVerse s = s\<lparr>currentChapter := int c, currentVerse := int (v + 1)\<rparr>"
    by (simp add: nav_defs)
  with True c show ?thesis by (intro exI [of _ c] exI [of _ "v + 1"]) simp
next
  case False
  with v have last: "v + 1 = length (verses (chapters s ! c))" by simp
  have "Suc c < length (chapters s)"
  proof (rule ccontr)
    assume "\<not> Suc c < length (chapters s)"
    with c have "take (Suc c) (chapters s) = chapters s" by simp
    with total_verses_take_Suc [OF c(2)] last more show False by simp
  qed
  moreover from this ne have "0 < length (verses (chapters s ! Suc c))"
    using nth_mem [of "Suc c" "chapters s"] by auto
  moreover from nonempty c v last \<open>Suc c < length (chapters s)\<close>
  have "handleNextVerse s = s\<lparr>currentChapter := int (Suc c), currentVerse := int 0\<rparr>"
    by (simp add: nav_defs)
  ultimately show ?thesis
    using total_verses_take_Suc [OF c(2)] last
    by (intro exI [of _ "Suc c"] exI [of _ 0]) simp
  qed
qed

lemma advance_iterated:
  assumes ne: "\<forall>ch \<in> set (chapters s). verses ch \<noteq> []"
    and start: "currentChapter s = 0" "currentVerse s = 0"
  shows "n < total_verses (chapters s) \<Longrightarrow>
         \<exists>c v. (handleNextVerse ^^ n) s = s\<lparr>currentChapter := int c, currentVerse := int v\<rparr> \<and>
           c < length (chapters s) \<and> v < length (verses (chapters s ! c)) \<and>
           total_verses (take c (chapters s)) + v = n"
proof (induction n)
  case 0
  then have "chapters s \<noteq> []" by (auto simp: total_verses_def)
  then have "0 < length (chapters s)" by simp
  moreover from this ne have "0 < length (verses (chapters s ! 0))"
    using nth_mem [of 0 "chapters s"] by auto
  moreover have "s = s\<lparr>currentChapter := int 0, currentVerse := int 0\<rparr>"
    using start by simp
  ultimately show ?case
    by (intro exI [of _ 0]) (simp add: total_verses_def)
next
  case (Suc n)
  then obtain c v where cv:
    "(handleNextVerse ^^ n) s = s\<lparr>currentChapter := int c, currentVerse := int v\<rparr>"
    "c < length (chapters s)" "v < length (verses (chapters s ! c))"
    "total_verses (take c (chapters s)) + v = n"
    by auto
  let ?t = "s\<lparr>currentChapter := int c, currentVerse := int v\<rparr>"
  have "\<exists>c' v'. handleNextVerse ?t = ?t\<lparr>currentChapter := int c', currentVerse := int v'\<rparr> \<and>
           c' < length (chapters ?t) \<and> v' < length (verses (chapters ?t ! c')) \<and>
           total_verses (take c' (chapters ?t)) + v' = total_verses (take c (chapters ?t)) + v + 1"
    using ne cv Suc.prems by (intro advance_offset) simp_all
  then obtain c' v' where
    "handleNextVerse ?t = s\<lparr>currentChapter := int c', currentVerse := int v'\<rparr>"
    "c' < length (chapters s)" "v' < length (verses (chapters s ! c'))"
    "total_verses (take c' (chapters s)) + v' = Suc n"
    using cv(4) by auto
  with cv(1) show ?case by auto
qed

lemma last_position:
  assumes ne: "\<forall>ch \<in> set chs. verses ch \<noteq> []"
    and c: "c < length chs" and v: "v < length (verses (chs ! c))"
    and off: "total_verses (take c chs) + v + 1 = total_verses chs"
  shows "int c = int (length chs) - 1 \<and> int v = int (length (verses (last chs))) - 1"
proof -
  from total_verses_split [OF c] off v
  have z: "total_verses (drop (Suc c) chs) = 0" and l: "v + 1 = length (verses (chs ! c))"
    by simp_all
  have "\<forall>ch \<in> set (drop (Suc c) chs). verses ch \<noteq> []"
    using ne by (auto dest: in_set_dropD)
  from total_verses_zero [OF this z] c have len: "length chs - 1 = c" by simp
  from c have "chs \<noteq> []" by auto
  then have "last chs = chs ! (length chs - 1)" by (rule last_conv_nth)
  with len have "last chs = chs ! c" by simp
  with len c l show ?thesis by auto
qed

subsection \<open>The cursor invariant, step by step\<close>

lemmas valid_defs = cursor_valid_def position_valid_def

lemma apply_op_chapters: "chapters (apply_op s op) = chapters s"
  by (cases op)
    (simp_all add: handleNextVerse_def handlePreviousVerse_def toggleBookmark_def Let_def
      addHighlight_def jumpToBookmark_def)

lemma nav_keeps:
  "chapters (handleNextVerse s) = chapters s" "bookmarks (handleNextVerse s) = bookmarks s"
  "chapters (handlePreviousVerse s) = chapters s"
  "bookmarks (handlePreviousVerse s) = bookmarks s"
  by (simp_all add: handleNextVerse_def handlePreviousVerse_def)

lemma advance_valid:
  assumes "\<forall>ch \<in> set (chapters s). verses ch \<noteq> []" and "cursor_valid s"
  shows "cursor_valid (handleNextVerse s)"
proof -
  have "0 < length (verses (chapters s ! nat (currentChapter s + 1)))"
    if "currentChapter s + 1 < int (length (chapters s))" "0 \<le> currentChapter s"
    using that assms(1) nth_mem [of "nat (currentChapter s + 1)" "chapters s"] by auto
  with assms(2) show ?thesis
    by (auto simp: valid_defs nav_defs)
qed

lemma retreat_valid:
  assumes "\<forall>ch \<in> set (chapters s). verses ch \<noteq> []" and "cursor_valid s"
  shows "cursor_valid (handlePreviousVerse s)"
proof -
  have "0 < length (verses (chapters s ! nat (currentChapter s - 1)))"
    if "currentChapter s < int (length (chapters s))" "0 < currentChapter s"
    using that assms(1) nth_mem [of "nat (currentChapter s - 1)" "chapters s"] by auto
  with assms(2) show ?thesis
    by (auto simp: valid_defs nav_defs)
qed

lemma jump_valid:
  assumes "bookmarks_valid s" and "cursor_valid s"
  shows "cursor_valid (jumpToBookmark i s)"
  using assms
  by (auto simp: jumpToBookmark_def bookmarks_valid_def cursor_valid_def list_all_length)

lemma toggle_state:
  "chapters (toggleBookmark s) = chapters s \<and> currentChapter (toggleBookmark s) = currentChapter s
   \<and> currentVerse (toggleBookmark s) = currentVerse s"
  by (simp add: toggleBookmark_def Let_def)

lemma toggle_bookmarks_valid:
  assumes "bookmarks_valid s" and "cursor_valid s"
  shows "bookmarks_valid (toggleBookmark s)"
proof (cases "cursor s \<in> set (bookmarks s)")
  case True
  have "set (remove1 (cursor s) (bookmarks s)) \<subseteq> set (bookmarks s)"
    by (rule set_remove1_subset)
  with assms(1) show ?thesis
    by (auto simp: bookmarks_valid_def toggle_present [OF True] toggle_state list_all_iff)
next
  case False
  with assms show ?thesis
    by (simp add: bookmarks_valid_def toggle_absent [OF False] toggle_state cursor_valid_def
        cursor_def)
qed

lemma apply_op_invariant:
  assumes "\<forall>ch \<in> set (chapters s). verses ch \<noteq> []" and "cursor_valid s" and "bookmarks_valid s"
  shows "cursor_valid (apply_op s op) \<and> bookmarks_valid (apply_op s op)"
proof (cases op)
  case Advance
  with assms show ?thesis
    by (simp add: advance_valid) (simp add: bookmarks_valid_def nav_keeps)
next
  case Retreat
  with assms show ?thesis
    by (simp add: retreat_valid) (simp add: bookmarks_valid_def nav_keeps)
next
  case ToggleBookmark
  with assms show ?thesis
    by (simp add: toggle_bookmarks_valid) (simp add: cursor_valid_def toggle_state)
next
  case (AddHighlight t)
  with assms show ?thesis
    by (simp add: cursor_valid_def bookmarks_valid_def addHighlight_def)
next
  case (JumpToBookmark i)
  with assms show ?thesis
    by (simp add: jump_valid) (simp add: bookmarks_valid_def jumpToBookmark_def)
qed

lemma run_ops_invariant:
  "\<forall>ch \<in> set (chapters s). verses ch \<noteq> [] \<Longrightarrow> cursor_valid s \<Longrightarrow> bookmarks_valid s \<Longrightarrow>
   cursor_valid (run_ops s ops) \<and> bookmarks_valid (run_ops s ops)"
  unfolding run_ops_def
proof (induction ops arbitrary: s)
  case Nil
  then show ?case by simp
next
  case (Cons op ops)
  from Cons.prems have "cursor_valid (apply_op s op) \<and> bookmarks_valid (apply_op s op)"
    by (intro apply_op_invariant)
  with Cons.IH [of "apply_op s op"] Cons.prems(1) show ?case
    by (simp add: apply_op_chapters)
qed

lemma last_verse_shown:
  assumes "0 < currentChapter s" and "currentChapter s < int (length (chapters s))"
    and "verses (chapters s ! nat (currentChapter s - 1)) \<noteq> []"
  shows "currentVerseData
           (s\<lparr>currentChapter := currentChapter s - 1,
              currentVerse :=
                int (length (verses (chapters s ! nat (currentChapter s - 1)))) - 1\<rparr>) =
         Some (last (verses (chapters s ! nat (currentChapter s - 1))))"
proof -
  let ?vs = "verses (chapters s ! nat (currentChapter s - 1))"
  from assms(3) have "0 < length ?vs" by simp
  then have "nat (int (length ?vs) - 1) = length ?vs - 1" by simp
  with assms show ?thesis
    by (simp add: currentVerseData_def currentChapterData_def js_index_def last_conv_nth)
qed

section \<open>Cursor navigation\<close>

text \<open>
  C1. For every non-empty chapter list, \<^verbatim>\<open>advance()\<close> (\<open>handleNextVerse\<close>) moves the cursor
  to the next verse of the current chapter; if the current verse is the last of its
  chapter, it moves to verse 0 of the next chapter; if the cursor is at the last verse
  of the last chapter, it leaves the state unchanged. The current chapter is any chapter
  of the list, and the last verse of a chapter is the one at index length minus one.
\<close>

theorem handleNextVerse_contract:
  assumes "chapters s \<noteq> []"
    and "0 \<le> currentChapter s" and "currentChapter s < int (length (chapters s))"
  shows
    "(currentVerse s < int (length (verses (chapters s ! nat (currentChapter s)))) - 1 \<longrightarrow>
        handleNextVerse s = s\<lparr>currentVerse := currentVerse s + 1\<rparr>) \<and>
     (currentVerse s = int (length (verses (chapters s ! nat (currentChapter s)))) - 1 \<and>
      currentChapter s < int (length (chapters s)) - 1 \<longrightarrow>
        handleNextVerse s = s\<lparr>currentChapter := currentChapter s + 1, currentVerse := 0\<rparr>) \<and>
     (currentVerse s = int (length (verses (chapters s ! nat (currentChapter s)))) - 1 \<and>
      currentChapter s = int (length (chapters s)) - 1 \<longrightarrow>
        handleNextVerse s = s)"
  using assms by (simp add: nav_defs)

theorem handleNextVerse_contract_witness:
  "chapters (loaded scenario) \<noteq> [] \<and>
   handleNextVerse (loaded scenario) = (loaded scenario)\<lparr>currentVerse := 1\<rparr> \<and>
   handleNextVerse ((loaded scenario)\<lparr>currentVerse := 1\<rparr>) =
     (loaded scenario)\<lparr>currentChapter := 1, currentVerse := 0\<rparr> \<and>
   handleNextVerse ((loaded scenario)\<lparr>currentChapter := 1, currentVerse := 0\<rparr>) =
     (loaded scenario)\<lparr>currentChapter := 1, currentVerse := 0\<rparr>"
  using handleNextVerse_contract [of "loaded scenario"]
    handleNextVerse_contract [of "(loaded scenario)\<lparr>currentVerse := 1\<rparr>"]
    handleNextVerse_contract [of "(loaded scenario)\<lparr>currentChapter := 1, currentVerse := 0\<rparr>"]
  by (simp add: concrete_defs)

text \<open>
  C2. For every non-empty chapter list, \<^verbatim>\<open>retreat()\<close> (\<open>handlePreviousVerse\<close>) moves the
  cursor to the previous verse; at verse 0 of a chapter other than the first, when the
  previous chapter has at least one verse, it moves to the last verse of the previous
  chapter, which is then the verse the cursor shows; at verse 0 of the first chapter it
  leaves the state unchanged, however many times it is called.
\<close>

theorem handlePreviousVerse_contract:
  assumes "chapters s \<noteq> []"
    and "0 \<le> currentChapter s" and "currentChapter s < int (length (chapters s))"
  shows
    "(0 < currentVerse s \<longrightarrow>
        handlePreviousVerse s = s\<lparr>currentVerse := currentVerse s - 1\<rparr>) \<and>
     (currentVerse s = 0 \<and> 0 < currentChapter s \<and>
      verses (chapters s ! nat (currentChapter s - 1)) \<noteq> [] \<longrightarrow>
        handlePreviousVerse s =
          s\<lparr>currentChapter := currentChapter s - 1,
            currentVerse :=
              int (length (verses (chapters s ! nat (currentChapter s - 1)))) - 1\<rparr> \<and>
        currentVerseData (handlePreviousVerse s) =
          Some (last (verses (chapters s ! nat (currentChapter s - 1))))) \<and>
     (currentVerse s = 0 \<and> currentChapter s = 0 \<longrightarrow>
        (handlePreviousVerse ^^ k) s = s)"
proof (intro conjI impI)
  assume "currentVerse s = 0 \<and> currentChapter s = 0"
  then have "handlePreviousVerse s = s" by (simp add: nav_defs)
  then show "(handlePreviousVerse ^^ k) s = s" by (rule funpow_fixed)
next
  assume a: "currentVerse s = 0 \<and> 0 < currentChapter s \<and>
      verses (chapters s ! nat (currentChapter s - 1)) \<noteq> []"
  with assms show moved: "handlePreviousVerse s =
          s\<lparr>currentChapter := currentChapter s - 1,
            currentVerse :=
              int (length (verses (chapters s ! nat (currentChapter s - 1)))) - 1\<rparr>"
    by (simp add: nav_defs)
  from a assms(3) show "currentVerseData (handlePreviousVerse s) =
          Some (last (verses (chapters s ! nat (currentChapter s - 1))))"
    unfolding moved by (intro last_verse_shown) simp_all
qed (use assms in \<open>simp_all add: nav_defs\<close>)

theorem handlePreviousVerse_contract_witness:
  "chapters (loaded scenario) \<noteq> [] \<and>
   handlePreviousVerse ((loaded scenario)\<lparr>currentVerse := 1\<rparr>) =
     (loaded scenario)\<lparr>currentVerse := 0\<rparr> \<and>
   handlePreviousVerse ((loaded scenario)\<lparr>currentChapter := 1, currentVerse := 0\<rparr>) =
     (loaded scenario)\<lparr>currentChapter := 0, currentVerse := 1\<rparr> \<and>
   currentVerseData
     (handlePreviousVerse ((loaded scenario)\<lparr>currentChapter := 1, currentVerse := 0\<rparr>)) =
     Some \<lparr>verse_text = ''v2''\<rparr> \<and>
   (handlePreviousVerse ^^ 5) (loaded scenario) = loaded scenario"
proof -
  let ?a = "(loaded scenario)\<lparr>currentVerse := 1\<rparr>"
  let ?b = "(loaded scenario)\<lparr>currentChapter := 1, currentVerse := 0\<rparr>"
  have ne: "chapters (loaded scenario) \<noteq> []" by (simp add: concrete_defs)
  have "handlePreviousVerse ?a = ?a\<lparr>currentVerse := currentVerse ?a - 1\<rparr>"
    using handlePreviousVerse_contract [of ?a] by (simp add: concrete_defs)
  then have first: "handlePreviousVerse ?a = (loaded scenario)\<lparr>currentVerse := 0\<rparr>"
    by (simp add: concrete_defs)
  have hyps: "chapters ?b \<noteq> []" "0 \<le> currentChapter ?b"
    "currentChapter ?b < int (length (chapters ?b))"
    by (simp_all add: concrete_defs)
  have at_start: "currentVerse ?b = 0 \<and> 0 < currentChapter ?b \<and>
      verses (chapters ?b ! nat (currentChapter ?b - 1)) \<noteq> []"
    by (simp add: concrete_defs)
  note rollback =
    handlePreviousVerse_contract [of ?b, OF hyps, THEN conjunct2, THEN conjunct1, rule_format,
      OF at_start]
  from rollback [THEN conjunct1]
  have second: "handlePreviousVerse ?b =
      (loaded scenario)\<lparr>currentChapter := 0, currentVerse := 1\<rparr>"
    by (simp add: concrete_defs)
  from rollback [THEN conjunct2]
  have shown: "currentVerseData (handlePreviousVerse ?b) = Some \<lparr>verse_text = ''v2''\<rparr>"
    by (simp add: concrete_defs)
  have third: "(handlePreviousVerse ^^ 5) (loaded scenario) = loaded scenario"
    using handlePreviousVerse_contract [of "loaded scenario" 5] by (simp add: concrete_defs)
  from ne first second shown third show ?thesis by blast
qed

text \<open>
  The previous chapter must have a verse: from verse 0 of the chapter after an empty
  chapter, \<open>handlePreviousVerse\<close> sets the verse index to \<open>-1\<close>, which is no verse of
  the empty chapter, and the main area renders the empty state.
\<close>

theorem handlePreviousVerse_contract_counterexample:
  "chapters ((loaded gapped)\<lparr>currentChapter := 2\<rparr>) \<noteq> [] \<and>
   cursor_valid ((loaded gapped)\<lparr>currentChapter := 2\<rparr>) \<and>
   currentVerse ((loaded gapped)\<lparr>currentChapter := 2\<rparr>) = 0 \<and>
   0 < currentChapter ((loaded gapped)\<lparr>currentChapter := 2\<rparr>) \<and>
   handlePreviousVerse ((loaded gapped)\<lparr>currentChapter := 2\<rparr>) =
     (loaded gapped)\<lparr>currentChapter := 1, currentVerse := - 1\<rparr> \<and>
   verses (chapters ((loaded gapped)\<lparr>currentChapter := 2\<rparr>) ! 1) = [] \<and>
   \<not> cursor_valid (handlePreviousVerse ((loaded gapped)\<lparr>currentChapter := 2\<rparr>)) \<and>
   currentVerseData (handlePreviousVerse ((loaded gapped)\<lparr>currentChapter := 2\<rparr>)) = None \<and>
   render_main (handlePreviousVerse ((loaded gapped)\<lparr>currentChapter := 2\<rparr>)) = NoContent"
  by (simp add: loaded_eq initial_def gapped_def valid_defs nav_defs render_main_def
      currentChapterData_def currentVerseData_def)

text \<open>
  C3. For every non-empty chapter list whose chapters all have at least one verse,
  calling \<^verbatim>\<open>advance()\<close> exactly (total verse count - 1) times from cursor (0,0) reaches
  the last verse of the last chapter, and one further call leaves the state unchanged.
  In particular, for the chapters Ch1 = [v1, v2], Ch2 = [v3], three calls from (0,0)
  yield the cursor (1,0), which shows v3, and a fourth call changes nothing.
\<close>

theorem advance_reaches_end:
  assumes "chapters s \<noteq> []" and "\<forall>ch \<in> set (chapters s). verses ch \<noteq> []"
    and "currentChapter s = 0" and "currentVerse s = 0"
  shows
    "(handleNextVerse ^^ (total_verses (chapters s) - 1)) s =
       s\<lparr>currentChapter := int (length (chapters s)) - 1,
         currentVerse := int (length (verses (last (chapters s)))) - 1\<rparr> \<and>
     handleNextVerse ((handleNextVerse ^^ (total_verses (chapters s) - 1)) s) =
       (handleNextVerse ^^ (total_verses (chapters s) - 1)) s \<and>
     currentChapter ((handleNextVerse ^^ 3) (loaded scenario)) = 1 \<and>
     currentVerse ((handleNextVerse ^^ 3) (loaded scenario)) = 0 \<and>
     render_main ((handleNextVerse ^^ 3) (loaded scenario)) = VerseView 2 ''Ch2'' ''v3'' 16 \<and>
     (handleNextVerse ^^ 4) (loaded scenario) = (handleNextVerse ^^ 3) (loaded scenario)"
proof -
  let ?n = "total_verses (chapters s) - 1"
  let ?e = "s\<lparr>currentChapter := int (length (chapters s)) - 1,
         currentVerse := int (length (verses (last (chapters s)))) - 1\<rparr>"
  from assms(1,2) have pos: "0 < total_verses (chapters s)"
    using total_verses_zero [of "chapters s"] by auto
  then have "?n < total_verses (chapters s)" by simp
  from advance_iterated [OF assms(2,3,4) this] obtain c v where cv:
    "(handleNextVerse ^^ ?n) s = s\<lparr>currentChapter := int c, currentVerse := int v\<rparr>"
    "c < length (chapters s)" "v < length (verses (chapters s ! c))"
    "total_verses (take c (chapters s)) + v = ?n"
    by auto
  from cv(4) pos have "total_verses (take c (chapters s)) + v + 1 = total_verses (chapters s)"
    by simp
  from last_position [OF assms(2) cv(2,3) this] cv(1)
  have reach: "(handleNextVerse ^^ ?n) s = ?e" by simp
  have "last (chapters s) = chapters s ! (length (chapters s) - 1)"
    using assms(1) by (simp add: last_conv_nth)
  then have stay: "handleNextVerse ?e = ?e"
    using assms(1) by (simp add: nav_defs nat_diff_distrib')
  have sc3: "(handleNextVerse ^^ 3) (loaded scenario) =
      (loaded scenario)\<lparr>currentChapter := 1, currentVerse := 0\<rparr>"
    by (simp add: eval_nat_numeral nav_defs concrete_defs)
  have sc4: "handleNextVerse ((loaded scenario)\<lparr>currentChapter := 1, currentVerse := 0\<rparr>) =
      (loaded scenario)\<lparr>currentChapter := 1, currentVerse := 0\<rparr>"
    by (simp add: nav_defs concrete_defs)
  have "(handleNextVerse ^^ 4) (loaded scenario) =
      handleNextVerse ((handleNextVerse ^^ 3) (loaded scenario))"
    by (simp add: eval_nat_numeral)
  with sc3 sc4 have four: "(handleNextVerse ^^ 4) (loaded scenario) = (handleNextVerse ^^ 3) (loaded scenario)"
    by simp
  have view: "render_main ((loaded scenario)\<lparr>currentChapter := 1, currentVerse := 0\<rparr>) =
      VerseView 2 ''Ch2'' ''v3'' 16"
    by (simp add: render_main_def currentChapterData_def currentVerseData_def js_index_def
        concrete_defs)
  show ?thesis using reach stay sc3 four view by simp
qed

theorem advance_reaches_end_witness:
  "chapters (loaded scenario) \<noteq> [] \<and> total_verses scenario = 3 \<and>
   (handleNextVerse ^^ 2) (loaded scenario) =
     (loaded scenario)\<lparr>currentChapter := 1, currentVerse := 0\<rparr> \<and>
   handleNextVerse ((handleNextVerse ^^ 2) (loaded scenario)) =
     (handleNextVerse ^^ 2) (loaded scenario)"
proof -
  have ne: "chapters (loaded scenario) \<noteq> []"
    and all: "\<forall>ch \<in> set (chapters (loaded scenario)). verses ch \<noteq> []"
    and c0: "currentChapter (loaded scenario) = 0"
    and v0: "currentVerse (loaded scenario) = 0"
    by (simp_all add: concrete_defs)
  have total: "total_verses scenario = 3"
    by (simp add: scenario_def total_verses_def)
  have n: "total_verses (chapters (loaded scenario)) - 1 = 2"
    and c: "int (length (chapters (loaded scenario))) - 1 = 1"
    and v: "int (length (verses (last (chapters (loaded scenario))))) - 1 = 0"
    by (simp_all add: concrete_defs total_verses_def)
  from advance_reaches_end [OF ne all c0 v0, unfolded n c v] ne total
  show ?thesis by blast
qed

text \<open>
  Without the hypothesis on the chapters the count is wrong: with an empty chapter between
  two chapters of one verse each, the total is 2, one call from (0,0) stops at (1,0), in
  the empty chapter and not in the last one, and a further call still moves the cursor.
\<close>

theorem advance_reaches_end_counterexample:
  "chapters (loaded gapped) \<noteq> [] \<and>
   currentChapter (loaded gapped) = 0 \<and> currentVerse (loaded gapped) = 0 \<and>
   total_verses (chapters (loaded gapped)) = 2 \<and>
   (handleNextVerse ^^ (total_verses (chapters (loaded gapped)) - 1)) (loaded gapped) =
     (loaded gapped)\<lparr>currentChapter := 1, currentVerse := 0\<rparr> \<and>
   (handleNextVerse ^^ (total_verses (chapters (loaded gapped)) - 1)) (loaded gapped) \<noteq>
     (loaded gapped)
       \<lparr>currentChapter := int (length (chapters (loaded gapped))) - 1,
        currentVerse := int (length (verses (last (chapters (loaded gapped))))) - 1\<rparr> \<and>
   handleNextVerse
     ((handleNextVerse ^^ (total_verses (chapters (loaded gapped)) - 1)) (loaded gapped)) \<noteq>
     (handleNextVerse ^^ (total_verses (chapters (loaded gapped)) - 1)) (loaded gapped)"
  by (simp add: loaded_eq initial_def gapped_def total_verses_def nav_defs)

text \<open>
  C4. Whenever the chapter list is non-empty, every chapter has at least one verse, the
  cursor satisfies \<open>0 \<le> chapterIndex < chapters.length\<close> and
  \<open>0 \<le> verseIndex < chapters[chapterIndex].verses.length\<close>, and every stored bookmark is
  a position within the same bounds, every operation (advance, retreat, bookmark toggle,
  highlight capture, jump to a stored bookmark) preserves the cursor invariant, and so
  does every sequence of them. The condition on the stored bookmarks holds for the empty
  list and is preserved along with the cursor invariant (\<open>apply_op_invariant\<close>).
\<close>

theorem cursor_invariant_preserved:
  assumes "chapters s \<noteq> []" and "\<forall>ch \<in> set (chapters s). verses ch \<noteq> []"
    and "cursor_valid s" and "bookmarks_valid s"
  shows "cursor_valid (apply_op s op) \<and> cursor_valid (run_ops s ops)"
  using assms apply_op_invariant [of s op] run_ops_invariant [of s ops] by simp

theorem cursor_invariant_preserved_witness:
  "cursor_valid (loaded scenario) \<and> bookmarks_valid (loaded scenario) \<and>
   cursor_valid (apply_op (loaded scenario) Retreat) \<and>
   cursor_valid (run_ops (loaded scenario)
     [ToggleBookmark, Advance, Advance, AddHighlight ''v3'', Advance, JumpToBookmark 0, Retreat])"
  using cursor_invariant_preserved [of "loaded scenario" Retreat
     "[ToggleBookmark, Advance, Advance, AddHighlight ''v3'', Advance, JumpToBookmark 0, Retreat]"]
  by (simp add: concrete_defs valid_defs bookmarks_valid_def)

text \<open>
  Without the hypothesis on the chapters the invariant is lost: advancing from the last
  verse of a chapter into an empty chapter gives verse 0 of a chapter with no verse, and
  retreating from verse 0 into an empty chapter gives verse \<open>-1\<close>.
\<close>

theorem cursor_invariant_counterexample:
  "chapters (loaded gapped) \<noteq> [] \<and> cursor_valid (loaded gapped) \<and>
   \<not> cursor_valid (apply_op (loaded gapped) Advance) \<and>
   cursor_valid ((loaded gapped)\<lparr>currentChapter := 2\<rparr>) \<and>
   \<not> cursor_valid (apply_op ((loaded gapped)\<lparr>currentChapter := 2\<rparr>) Retreat) \<and>
   currentVerse (apply_op ((loaded gapped)\<lparr>currentChapter := 2\<rparr>) Retreat) = - 1"
  by (simp add: loaded_eq initial_def gapped_def valid_defs nav_defs)

text \<open>
  C7. When the chapter list is empty, \<open>handleNextVerse\<close> and \<open>handlePreviousVerse\<close> return
  the state they were given: the whole state is unchanged, the cursor included. Both
  are total functions with no failing branch.
\<close>

theorem navigation_empty_noop:
  "chapters s = [] \<Longrightarrow> handleNextVerse s = s \<and> handlePreviousVerse s = s"
  by (simp add: handleNextVerse_def handlePreviousVerse_def)

theorem navigation_empty_noop_witness:
  "chapters initial = [] \<and> handleNextVerse initial = initial \<and>
   handlePreviousVerse initial = initial"
  using navigation_empty_noop [of initial] by (simp add: initial_def)

section \<open>Loading\<close>

text \<open>
  C8. If the initial fetch fails, by a rejected \<^verbatim>\<open>fetch\<close> (network error) or a rejected
  \<^verbatim>\<open>json()\<close> (parse error), then \<open>fetchChapters\<close> returns normally (\<open>Inr\<close>: nothing
  propagates to the caller), the error is logged with \<^verbatim>\<open>console.error\<close>, one error toast
  is shown, the chapter list is still empty and the main area renders the empty state.
\<close>

theorem fetch_failure_handled:
  assumes "r = FetchRejected e \<or> r = FetchResolved (JsonRejected e)"
    and "chapters s = []"
  shows
    "fetchChapters r s = Inr (fetch_catch e s) \<and>
     console (fetch_catch e s) = console s @ [(''Error fetching chapters:'', e)] \<and>
     toasts (fetch_catch e s) =
       toasts s @ [ToastError ''Failed to load chapters. Please try again later.''] \<and>
     chapters (fetch_catch e s) = [] \<and>
     render_main (fetch_catch e s) = NoContent"
  using assms by (auto simp: fetchChapters_def fetch_try_def fetch_catch_def render_main_def)

theorem fetch_failure_handled_witness:
  "chapters initial = [] \<and>
   fetchChapters (FetchRejected (NetworkError ''offline'')) initial =
     Inr (fetch_catch (NetworkError ''offline'') initial) \<and>
   fetchChapters (FetchResolved (JsonRejected (ParseError ''bad json''))) initial =
     Inr (fetch_catch (ParseError ''bad json'') initial) \<and>
   render_main (fetch_catch (NetworkError ''offline'') initial) = NoContent \<and>
   chapters (fetch_catch (ParseError ''bad json'') initial) = []"
  using fetch_failure_handled [of "FetchRejected (NetworkError ''offline'')" "NetworkError ''offline''" initial]
    fetch_failure_handled [of "FetchResolved (JsonRejected (ParseError ''bad json''))" "ParseError ''bad json''" initial]
  by (simp add: initial_def)

section \<open>Bookmarks and highlights\<close>

text \<open>
  C5. For every bookmark list and cursor position, \<open>toggleBookmark\<close> removes a bookmark
  equal to the cursor's (chapter, verse) pair (the first such entry) when one is present,
  and otherwise appends a bookmark with the cursor's pair at the end.
\<close>

theorem toggleBookmark_contract:
  "(cursor s \<in> set (bookmarks s) \<longrightarrow>
      bookmarks (toggleBookmark s) = remove1 (cursor s) (bookmarks s)) \<and>
   (cursor s \<notin> set (bookmarks s) \<longrightarrow>
      bookmarks (toggleBookmark s) = bookmarks s @ [cursor s])"
  by (simp add: toggle_present toggle_absent)

theorem toggleBookmark_contract_witness:
  "bookmarks (toggleBookmark (loaded scenario)) = [\<lparr>bm_chapter = 0, bm_verse = 0\<rparr>] \<and>
   bookmarks (toggleBookmark ((loaded scenario)
     \<lparr>bookmarks := [\<lparr>bm_chapter = 0, bm_verse = 0\<rparr>, \<lparr>bm_chapter = 0, bm_verse = 1\<rparr>]\<rparr>)) =
     [\<lparr>bm_chapter = 0, bm_verse = 1\<rparr>]"
  using toggleBookmark_contract [of "loaded scenario"]
    toggleBookmark_contract [of "(loaded scenario)
      \<lparr>bookmarks := [\<lparr>bm_chapter = 0, bm_verse = 0\<rparr>, \<lparr>bm_chapter = 0, bm_verse = 1\<rparr>]\<rparr>"]
  by (simp add: concrete_defs cursor_def)

text \<open>
  C6. For every bookmark list and cursor position, applying \<open>toggleBookmark\<close> twice at the
  same cursor returns the bookmark list to its original state when the position was not
  bookmarked. When it was bookmarked, in a list without duplicates, the result holds the
  same bookmarks as the original list, with the toggled one moved to the end.
\<close>

theorem toggle_twice:
  "(cursor s \<notin> set (bookmarks s) \<longrightarrow>
      bookmarks (toggleBookmark (toggleBookmark s)) = bookmarks s) \<and>
   (cursor s \<in> set (bookmarks s) \<and> distinct (bookmarks s) \<longrightarrow>
      bookmarks (toggleBookmark (toggleBookmark s)) = remove1 (cursor s) (bookmarks s) @ [cursor s]
      \<and> mset (bookmarks (toggleBookmark (toggleBookmark s))) = mset (bookmarks s))"
proof (intro conjI impI)
  assume a: "cursor s \<notin> set (bookmarks s)"
  have "cursor (toggleBookmark s) \<in> set (bookmarks (toggleBookmark s))"
    using a by (simp add: toggle_absent toggle_cursor)
  from toggle_present[OF this] a show "bookmarks (toggleBookmark (toggleBookmark s)) = bookmarks s"
    by (simp add: toggle_absent toggle_cursor remove1_append)
next
  assume a: "cursor s \<in> set (bookmarks s) \<and> distinct (bookmarks s)"
  then have "cursor (toggleBookmark s) \<notin> set (bookmarks (toggleBookmark s))"
    by (simp add: toggle_present toggle_cursor)
  from toggle_absent[OF this] a
  show "bookmarks (toggleBookmark (toggleBookmark s)) = remove1 (cursor s) (bookmarks s) @ [cursor s]"
    by (simp add: toggle_present toggle_cursor)
  with a show "mset (bookmarks (toggleBookmark (toggleBookmark s))) = mset (bookmarks s)"
    by simp
qed

theorem toggle_twice_witness:
  "bookmarks (toggleBookmark (toggleBookmark (loaded scenario))) = [] \<and>
   bookmarks (toggleBookmark (toggleBookmark ((loaded scenario)
     \<lparr>bookmarks := [\<lparr>bm_chapter = 0, bm_verse = 0\<rparr>, \<lparr>bm_chapter = 0, bm_verse = 1\<rparr>]\<rparr>))) =
     [\<lparr>bm_chapter = 0, bm_verse = 1\<rparr>, \<lparr>bm_chapter = 0, bm_verse = 0\<rparr>]"
  using toggle_twice [of "loaded scenario"]
    toggle_twice [of "(loaded scenario)
      \<lparr>bookmarks := [\<lparr>bm_chapter = 0, bm_verse = 0\<rparr>, \<lparr>bm_chapter = 0, bm_verse = 1\<rparr>]\<rparr>"]
  by (simp add: concrete_defs cursor_def)

text \<open>
  The order of the list is not restored when the position was bookmarked: after
  bookmarking (0,0) and then (0,1) and going back to (0,0), two toggles leave the list
  (0,1), (0,0).
\<close>

theorem toggle_twice_counterexample:
  "bookmarks (run_ops (loaded scenario) [ToggleBookmark, Advance, ToggleBookmark, Retreat]) =
     [\<lparr>bm_chapter = 0, bm_verse = 0\<rparr>, \<lparr>bm_chapter = 0, bm_verse = 1\<rparr>] \<and>
   bookmarks (toggleBookmark (toggleBookmark
      (run_ops (loaded scenario) [ToggleBookmark, Advance, ToggleBookmark, Retreat]))) =
     [\<lparr>bm_chapter = 0, bm_verse = 1\<rparr>, \<lparr>bm_chapter = 0, bm_verse = 0\<rparr>] \<and>
   bookmarks (toggleBookmark (toggleBookmark
      (run_ops (loaded scenario) [ToggleBookmark, Advance, ToggleBookmark, Retreat]))) \<noteq>
     bookmarks (run_ops (loaded scenario) [ToggleBookmark, Advance, ToggleBookmark, Retreat])"
  by (simp add: run_ops_def concrete_defs nav_defs toggleBookmark_def filter_indexed_def)

text \<open>
  C9. For every highlight list, cursor position and text, \<open>addHighlight\<close> appends exactly
  one (chapter, verse, text) record for the cursor's position: the list grows by one and
  its old entries are the prefix of the new list, unchanged. The text is any string and
  nothing is compared with the entries already there.
\<close>

theorem addHighlight_appends:
  "highlights (addHighlight t s) =
     highlights s @
       [\<lparr>hl_chapter = currentChapter s, hl_verse = currentVerse s, hl_text = t\<rparr>] \<and>
   length (highlights (addHighlight t s)) = length (highlights s) + 1 \<and>
   take (length (highlights s)) (highlights (addHighlight t s)) = highlights s"
  by (simp add: addHighlight_def)

theorem addHighlight_appends_witness:
  "highlights (addHighlight ''v1'' (addHighlight ''v1'' (loaded scenario))) =
     [\<lparr>hl_chapter = 0, hl_verse = 0, hl_text = ''v1''\<rparr>,
      \<lparr>hl_chapter = 0, hl_verse = 0, hl_text = ''v1''\<rparr>]"
  using addHighlight_appends [of "''v1''" "loaded scenario"]
    addHighlight_appends [of "''v1''" "addHighlight ''v1'' (loaded scenario)"]
  by (simp add: concrete_defs addHighlight_def)

text \<open>
  C10. Starting from the initial state, whose bookmark list is empty, the bookmark list
  never holds the same (chapter, verse) pair twice, whatever sequence of events happens
  (bookmark toggles at any cursor positions, navigation, highlights, jumps, the end of
  the fetch, the slider).
\<close>

theorem bookmarks_never_duplicated: "distinct (bookmarks (run initial evs))"
  by (rule run_distinct) (simp add: initial_def)

theorem bookmarks_never_duplicated_witness:
  "distinct (bookmarks (run initial
     [User ToggleBookmark, Fetched (FetchResolved (JsonParsed scenario)), User Advance,
      User ToggleBookmark, User Retreat, User ToggleBookmark, User ToggleBookmark]))"
  using bookmarks_never_duplicated
    [of "[User ToggleBookmark, Fetched (FetchResolved (JsonParsed scenario)), User Advance,
      User ToggleBookmark, User Retreat, User ToggleBookmark, User ToggleBookmark]"]
  by simp

end
